theory Spec2Isabelle
  imports Main "HOL-Library.Word" "HOL-Library.Sublist"
begin

section \<open>Values, errors and the outside world\<close>

type_synonym byte = "8 word"

text \<open>
  The members of an event's payload tuple: integers (connection handle, address type,
  attribute handle, status) and byte strings (the peer address). Both are hashable, so
  \<open>set.add\<close> accepts either.
\<close>

datatype pyval = PInt int | PBytes "byte list"

datatype error = KeyError | ValueError | StructError

text \<open>
  Every call that leaves the program, in the order it is made: the calls on the
  \<open>bluetooth.BLE\<close> object, and those on the \<open>machine.Pin\<close> object and
  \<open>time.sleep_ms\<close> that \<open>gpio.blink\<close> makes.
\<close>

datatype effect =
    Gatts_write int "byte list"
  | Gatts_read int
  | Gatts_notify pyval int
  | Gatts_indicate pyval int
  | Gap_advertise int "byte list"
  | Pin_out int
  | Pin_on int
  | Pin_off int
  | Sleep_ms int

text \<open>
  The fields of a \<open>BLEEnvironment\<close> object, together with what the wireless stack
  behind \<open>self._ble\<close> holds: the value of every attribute (\<open>attrs\<close>) and the
  calls received so far (\<open>trace\<close>, oldest first). The stack is not part of the
  program; it is taken as the recording device of the specification's external interface:
  \<open>gatts_write\<close> stores, \<open>gatts_read\<close> returns what is stored, and
  \<open>gatts_notify\<close>, \<open>gatts_indicate\<close> and \<open>gap_advertise\<close> are taken
  note of and return.
\<close>

record state =
  temp_handle :: int
  pressure_handle :: int
  humidity_handle :: int
  string_handle :: int
  connections :: "pyval set"
  payload :: "byte list"
  attrs :: "int \<Rightarrow> byte list"
  trace :: "effect list"

type_synonym 'a result = "(error + 'a) \<times> state"

definition emit :: "effect \<Rightarrow> state \<Rightarrow> state" where
  "emit e s = s\<lparr>trace := trace s @ [e]\<rparr>"

definition gatts_write :: "int \<Rightarrow> byte list \<Rightarrow> state \<Rightarrow> state" where
  "gatts_write h bs s = emit (Gatts_write h bs) (s\<lparr>attrs := (attrs s)(h := bs)\<rparr>)"

definition gatts_read :: "int \<Rightarrow> state \<Rightarrow> byte list \<times> state" where
  "gatts_read h s = (attrs s h, emit (Gatts_read h) s)"

definition gatts_notify :: "pyval \<Rightarrow> int \<Rightarrow> state \<Rightarrow> state" where
  "gatts_notify c h s = emit (Gatts_notify c h) s"

definition gatts_indicate :: "pyval \<Rightarrow> int \<Rightarrow> state \<Rightarrow> state" where
  "gatts_indicate c h s = emit (Gatts_indicate c h) s"

definition gap_advertise :: "int \<Rightarrow> byte list \<Rightarrow> state \<Rightarrow> state" where
  "gap_advertise interval_us adv_data s = emit (Gap_advertise interval_us adv_data) s"

section \<open>struct.pack("<i", x)\<close>

text \<open>
  The four bytes of \<open>x\<close>, least significant first. \<open>div\<close> on \<open>int\<close> rounds towards
  minus infinity, so a negative \<open>x\<close> gives its two's complement.
\<close>

definition le_bytes4 :: "int \<Rightarrow> byte list" where
  "le_bytes4 x = map (\<lambda>k. word_of_int (x div 256 ^ k)) [0, 1, 2, 3]"

definition in_i32 :: "int \<Rightarrow> bool" where
  "in_i32 x = (- (2 ^ 31) \<le> x \<and> x < 2 ^ 31)"

text \<open>
  The two interpreters differ on an argument outside the 32-bit range: CPython raises
  \<open>struct.error\<close>, MicroPython (which the imports of the program require) keeps the
  low 32 bits.
\<close>

datatype runtime = CPython | MicroPython

definition struct_pack_i :: "runtime \<Rightarrow> int \<Rightarrow> error + byte list" where
  "struct_pack_i rt x =
     (if rt = CPython \<and> \<not> in_i32 x then Inl StructError else Inr (le_bytes4 x))"

section \<open>gpio.blink\<close>

definition blink :: "int \<Rightarrow> int \<Rightarrow> state \<Rightarrow> state" where
  "blink pin delay s =
     emit (Sleep_ms delay) (emit (Pin_off pin) (emit (Sleep_ms delay) (emit (Pin_on pin) s)))"

section \<open>BLEEnvironment\<close>

definition IRQ_CENTRAL_CONNECT :: int where "IRQ_CENTRAL_CONNECT = 1"
definition IRQ_CENTRAL_DISCONNECT :: int where "IRQ_CENTRAL_DISCONNECT = 2"
definition IRQ_GATTS_INDICATE_DONE :: int where "IRQ_GATTS_INDICATE_DONE = 20"

definition advertise :: "int \<Rightarrow> state \<Rightarrow> state" where
  "advertise interval_us s = gap_advertise interval_us (payload s) s"

text \<open>
  The event callback. Unpacking \<open>data\<close> into three names raises \<open>ValueError\<close> unless
  the tuple has three members; \<open>set.remove\<close> raises \<open>KeyError\<close> on a member that is
  not there, before \<open>_advertise\<close> is reached.
\<close>

definition irq :: "int \<Rightarrow> pyval list \<Rightarrow> state \<Rightarrow> unit result" where
  "irq event data s =
     (if event = IRQ_CENTRAL_CONNECT then
        (case data of
           [conn_handle, _, _] \<Rightarrow>
             (Inr (), s\<lparr>connections := insert conn_handle (connections s)\<rparr>)
         | _ \<Rightarrow> (Inl ValueError, s))
      else if event = IRQ_CENTRAL_DISCONNECT then
        (case data of
           [conn_handle, _, _] \<Rightarrow>
             if conn_handle \<in> connections s
             then (Inr (), advertise 500000 (s\<lparr>connections := connections s - {conn_handle}\<rparr>))
             else (Inl KeyError, s)
         | _ \<Rightarrow> (Inl ValueError, s))
      else if event = IRQ_GATTS_INDICATE_DONE then
        (case data of
           [conn_handle, value_handle, status] \<Rightarrow> (Inr (), s)
         | _ \<Rightarrow> (Inl ValueError, s))
      else (Inr (), s))"

text \<open>The body of the loop over the connections, for one connection.\<close>

definition fan_out_one :: "bool \<Rightarrow> bool \<Rightarrow> pyval \<Rightarrow> state \<Rightarrow> state" where
  "fan_out_one notify indicate conn_handle s =
     (let s1 = (if notify then
                  gatts_notify conn_handle (humidity_handle s)
                    (gatts_notify conn_handle (pressure_handle s)
                      (gatts_notify conn_handle (temp_handle s) s))
                else s)
      in if indicate then
           gatts_indicate conn_handle (humidity_handle s1)
             (gatts_indicate conn_handle (pressure_handle s1)
               (gatts_indicate conn_handle (temp_handle s1) s1))
         else s1)"

fun fan_out :: "bool \<Rightarrow> bool \<Rightarrow> pyval list \<Rightarrow> state \<Rightarrow> state" where
  "fan_out notify indicate [] s = s"
| "fan_out notify indicate (conn_handle # rest) s =
     fan_out notify indicate rest (fan_out_one notify indicate conn_handle s)"

text \<open>
  Python leaves the order in which a set is iterated open. The order taken by the loop
  is the argument \<open>order\<close>; it is one of the loop's possible orders when it lists the
  connection set without repetition.
\<close>

definition enumerates :: "pyval list \<Rightarrow> state \<Rightarrow> bool" where
  "enumerates order s = (distinct order \<and> set order = connections s)"

text \<open>
  The arguments \<open>temp\<close>, \<open>pressure\<close> and \<open>humidity\<close> are integers, on which
  \<open>int\<close> is the identity. Each value is packed just before it is written, so a
  \<open>struct.error\<close> leaves the earlier writes done.
\<close>

definition set_environment_data ::
  "runtime \<Rightarrow> pyval list \<Rightarrow> int \<Rightarrow> int \<Rightarrow> int \<Rightarrow> bool \<Rightarrow> bool \<Rightarrow> state \<Rightarrow> unit result" where
  "set_environment_data rt order temp pressure humidity notify indicate s =
     (case struct_pack_i rt temp of
        Inl e \<Rightarrow> (Inl e, s)
      | Inr b1 \<Rightarrow>
          let s1 = gatts_write (temp_handle s) b1 s in
          (case struct_pack_i rt pressure of
             Inl e \<Rightarrow> (Inl e, s1)
           | Inr b2 \<Rightarrow>
               let s2 = gatts_write (pressure_handle s1) b2 s1 in
               (case struct_pack_i rt humidity of
                  Inl e \<Rightarrow> (Inl e, s2)
                | Inr b3 \<Rightarrow>
                    let s3 = gatts_write (humidity_handle s2) b3 s2 in
                    if notify \<or> indicate
                    then (Inr (), fan_out notify indicate order s3)
                    else (Inr (), s3))))"

definition blink_token :: "byte list" where
  "blink_token = map of_char ''blink''"

definition read_act :: "runtime \<Rightarrow> state \<Rightarrow> unit result" where
  "read_act rt s =
     (let (v, s1) = gatts_read (string_handle s) s;
          s2 = (if v = blink_token
                then ((blink 23 500) ^^ 3) (emit (Pin_out 23) s1)
                else s1)
      in case struct_pack_i rt 0 of
           Inl e \<Rightarrow> (Inl e, s2)
         | Inr bs \<Rightarrow> (Inr (), gatts_write (string_handle s2) bs s2))"

section \<open>Replaying connection events\<close>

text \<open>
  A connect or disconnect event as the stack delivers it: the connection handle, the
  address type and the address.
\<close>

datatype conn_event = Connect pyval pyval pyval | Disconnect pyval pyval pyval

fun deliver :: "conn_event \<Rightarrow> state \<Rightarrow> unit result" where
  "deliver (Connect h a b) s = irq IRQ_CENTRAL_CONNECT [h, a, b] s"
| "deliver (Disconnect h a b) s = irq IRQ_CENTRAL_DISCONNECT [h, a, b] s"

text \<open>
  The events are delivered one after the other; an event that raises leaves the state as
  it was when the exception left the callback, and the next event is delivered all the
  same. The outcome of every event is kept.
\<close>

fun replay :: "conn_event list \<Rightarrow> state \<Rightarrow> (error + unit) list \<times> state" where
  "replay [] s = ([], s)"
| "replay (e # evs) s =
     (case deliver e s of (r, s') \<Rightarrow> (case replay evs s' of (rs, s'') \<Rightarrow> (r # rs, s'')))"

fun handle_of :: "conn_event \<Rightarrow> pyval" where
  "handle_of (Connect h a b) = h"
| "handle_of (Disconnect h a b) = h"

fun is_connect :: "conn_event \<Rightarrow> bool" where
  "is_connect (Connect h a b) = True"
| "is_connect (Disconnect h a b) = False"

definition connects :: "pyval \<Rightarrow> conn_event list \<Rightarrow> nat" where
  "connects h evs = length (filter (\<lambda>e. is_connect e \<and> handle_of e = h) evs)"

definition disconnects :: "pyval \<Rightarrow> conn_event list \<Rightarrow> nat" where
  "disconnects h evs = length (filter (\<lambda>e. \<not> is_connect e \<and> handle_of e = h) evs)"

text \<open>
  A sequence in which connects and disconnects of each handle alternate, starting with a
  connect: at every point, a handle has had as many connects as disconnects, or one more.
\<close>

definition alternating :: "conn_event list \<Rightarrow> bool" where
  "alternating evs =
     list_all (\<lambda>p. list_all (\<lambda>e. disconnects (handle_of e) p \<le> connects (handle_of e) p \<and>
                                connects (handle_of e) p \<le> disconnects (handle_of e) p + 1) p)
       (prefixes evs)"

section \<open>Reading the calls and the bytes\<close>

text \<open>The calls made between the state \<open>s\<close> and the later state \<open>s'\<close>.\<close>

definition emitted :: "state \<Rightarrow> state \<Rightarrow> effect list" where
  "emitted s s' = drop (length (trace s)) (trace s')"

fun is_notify :: "effect \<Rightarrow> bool" where
  "is_notify (Gatts_notify c h) = True"
| "is_notify _ = False"

fun is_indicate :: "effect \<Rightarrow> bool" where
  "is_indicate (Gatts_indicate c h) = True"
| "is_indicate _ = False"

fun is_write :: "effect \<Rightarrow> bool" where
  "is_write (Gatts_write h bs) = True"
| "is_write _ = False"

fun sent_to :: "pyval \<Rightarrow> effect \<Rightarrow> bool" where
  "sent_to c (Gatts_notify c' h) = (c' = c)"
| "sent_to c (Gatts_indicate c' h) = (c' = c)"
| "sent_to c _ = False"

text \<open>
  Decoding, written independently of \<open>le_bytes4\<close>: the bytes as an unsigned number,
  least significant first, and the 32-bit two's complement reading of that number.
\<close>

fun le_unsigned :: "byte list \<Rightarrow> int" where
  "le_unsigned [] = 0"
| "le_unsigned (b # bs) = uint b + 256 * le_unsigned bs"

definition le_signed32 :: "byte list \<Rightarrow> int" where
  "le_signed32 bs = (let u = le_unsigned bs in if u < 2 ^ 31 then u else u - 2 ^ 32)"

text \<open>
  The encoding in the specification's words: the value as a 32-bit two's complement word,
  cut into four bytes, least significant first.
\<close>

definition le_encode32 :: "32 word \<Rightarrow> byte list" where
  "le_encode32 w = map (\<lambda>k. ucast (drop_bit (8 * k) w)) [0, 1, 2, 3]"

text \<open>The handles of the four characteristics are four different attributes.\<close>

definition distinct_handles :: "state \<Rightarrow> bool" where
  "distinct_handles s =
     distinct [temp_handle s, pressure_handle s, humidity_handle s, string_handle s]"

text \<open>The pulse of \<open>blink\<close> on pin 23 with the default delay, as calls.\<close>

definition pulse :: "effect list" where
  "pulse = [Pin_on 23, Sleep_ms 500, Pin_off 23, Sleep_ms 500]"

text \<open>A server just after construction, with no connection, for concrete runs.\<close>

definition fresh :: state where
  "fresh = \<lparr>temp_handle = 9, pressure_handle = 12, humidity_handle = 15, string_handle = 18,
            connections = {}, payload = [2, 1, 6], attrs = (\<lambda>h. []), trace = []\<rparr>"

text \<open>Whether \<open>struct.pack\<close> accepts the value on the given interpreter.\<close>

definition packable :: "runtime \<Rightarrow> int \<Rightarrow> bool" where
  "packable rt x = (rt = MicroPython \<or> in_i32 x)"

text \<open>The calls of one pass of the loop body, for the connection \<open>c\<close>.\<close>

definition calls_for :: "bool \<Rightarrow> bool \<Rightarrow> int \<Rightarrow> int \<Rightarrow> int \<Rightarrow> pyval \<Rightarrow> effect list" where
  "calls_for notify indicate th ph hh c =
     (if notify then [Gatts_notify c th, Gatts_notify c ph, Gatts_notify c hh] else []) @
     (if indicate then [Gatts_indicate c th, Gatts_indicate c ph, Gatts_indicate c hh] else [])"

text \<open>The four captured attribute handles.\<close>

definition handles :: "state \<Rightarrow> int \<times> int \<times> int \<times> int" where
  "handles s = (temp_handle s, pressure_handle s, humidity_handle s, string_handle s)"

text \<open>Concrete servers for the runs below: two peers connected; a command pending.\<close>

definition two_peers :: state where
  "two_peers = fresh\<lparr>connections := {PInt 1, PInt 2}\<rparr>"

definition pending :: "byte list \<Rightarrow> state" where
  "pending bs = fresh\<lparr>attrs := (\<lambda>h. if h = 18 then bs else [])\<rparr>"

definition peer_events :: "conn_event list" where
  "peer_events =
     [Connect (PInt 1) (PInt 0) (PBytes []), Connect (PInt 2) (PInt 0) (PBytes []),
      Disconnect (PInt 1) (PInt 0) (PBytes []), Connect (PInt 1) (PInt 0) (PBytes []),
      Disconnect (PInt 2) (PInt 0) (PBytes [])]"

definition hello_token :: "byte list" where
  "hello_token = map of_char ''hello''"

section \<open>Facts about the operations\<close>

lemma emit_fields [simp]:
  "trace (emit e s) = trace s @ [e]"
  "attrs (emit e s) = attrs s"
  "connections (emit e s) = connections s"
  "payload (emit e s) = payload s"
  "temp_handle (emit e s) = temp_handle s"
  "pressure_handle (emit e s) = pressure_handle s"
  "humidity_handle (emit e s) = humidity_handle s"
  "string_handle (emit e s) = string_handle s"
  by (simp_all add: emit_def)

lemma gatts_write_fields [simp]:
  "trace (gatts_write h bs s) = trace s @ [Gatts_write h bs]"
  "attrs (gatts_write h bs s) = (attrs s)(h := bs)"
  "connections (gatts_write h bs s) = connections s"
  "payload (gatts_write h bs s) = payload s"
  "temp_handle (gatts_write h bs s) = temp_handle s"
  "pressure_handle (gatts_write h bs s) = pressure_handle s"
  "humidity_handle (gatts_write h bs s) = humidity_handle s"
  "string_handle (gatts_write h bs s) = string_handle s"
  by (simp_all add: gatts_write_def)

lemma emitted_append [simp]: "trace s' = trace s @ xs \<Longrightarrow> emitted s s' = xs"
  by (simp add: emitted_def)

lemma struct_pack_i_packable: "packable rt x \<Longrightarrow> struct_pack_i rt x = Inr (le_bytes4 x)"
  by (auto simp: packable_def struct_pack_i_def)

lemma struct_pack_i_zero: "struct_pack_i rt 0 = Inr [0, 0, 0, 0]"
  by (simp add: struct_pack_i_def in_i32_def le_bytes4_def)

lemma blink_trace: "blink pin delay s = s\<lparr>trace := trace s @ [Pin_on pin, Sleep_ms delay, Pin_off pin, Sleep_ms delay]\<rparr>"
  by (simp add: blink_def emit_def)

lemma blink3_fields [simp]:
  "trace (((blink 23 500) ^^ 3) s) = trace s @ pulse @ pulse @ pulse"
  "attrs (((blink 23 500) ^^ 3) s) = attrs s"
  "connections (((blink 23 500) ^^ 3) s) = connections s"
  "temp_handle (((blink 23 500) ^^ 3) s) = temp_handle s"
  "pressure_handle (((blink 23 500) ^^ 3) s) = pressure_handle s"
  "humidity_handle (((blink 23 500) ^^ 3) s) = humidity_handle s"
  "string_handle (((blink 23 500) ^^ 3) s) = string_handle s"
  by (simp_all add: numeral_3_eq_3 blink_trace pulse_def)

lemma read_act_eq:
  "read_act rt s =
     (Inr (), gatts_write (string_handle s) [0, 0, 0, 0]
        (if attrs s (string_handle s) = blink_token
         then ((blink 23 500) ^^ 3) (emit (Pin_out 23) (emit (Gatts_read (string_handle s)) s))
         else emit (Gatts_read (string_handle s)) s))"
  by (simp add: read_act_def gatts_read_def struct_pack_i_zero Let_def)

lemma fan_out_one_eq:
  "fan_out_one n i c s =
     s\<lparr>trace := trace s @ calls_for n i (temp_handle s) (pressure_handle s) (humidity_handle s) c\<rparr>"
  by (simp add: fan_out_one_def calls_for_def gatts_notify_def gatts_indicate_def emit_def Let_def)

lemma fan_out_eq:
  "fan_out n i cs s =
     s\<lparr>trace := trace s @ concat (map (calls_for n i (temp_handle s) (pressure_handle s) (humidity_handle s)) cs)\<rparr>"
  by (induction cs arbitrary: s) (simp_all add: fan_out_one_eq)

lemma set_environment_data_ok:
  assumes "packable rt temp" "packable rt pressure" "packable rt humidity"
  shows "set_environment_data rt order temp pressure humidity notify indicate s =
     (Inr (), s\<lparr>attrs := (attrs s)(temp_handle s := le_bytes4 temp, pressure_handle s := le_bytes4 pressure,
                                   humidity_handle s := le_bytes4 humidity),
               trace := trace s @
                 [Gatts_write (temp_handle s) (le_bytes4 temp),
                  Gatts_write (pressure_handle s) (le_bytes4 pressure),
                  Gatts_write (humidity_handle s) (le_bytes4 humidity)] @
                 (if notify \<or> indicate
                  then concat (map (calls_for notify indicate (temp_handle s) (pressure_handle s) (humidity_handle s)) order)
                  else [])\<rparr>)"
  using assms
  by (simp add: set_environment_data_def struct_pack_i_packable fan_out_eq gatts_write_def emit_def Let_def)

lemma filter_concat_calls_notify:
  "length (filter is_notify (concat (map (calls_for True False th ph hh) cs))) = 3 * length cs"
  by (induction cs) (simp_all add: calls_for_def)

lemma filter_concat_calls_indicate:
  "filter is_indicate (concat (map (calls_for True False th ph hh) cs)) = []"
  by (induction cs) (simp_all add: calls_for_def)

lemma filter_write_calls: "filter is_write (concat (map (calls_for n i th ph hh) cs)) = []"
  by (induction cs) (simp_all add: calls_for_def)

lemma sent_to_calls_for_other:
  "c' \<noteq> c \<Longrightarrow> filter (sent_to c) (calls_for n i th ph hh c') = []"
  by (simp add: calls_for_def)

lemma sent_to_calls_for_same:
  "filter (sent_to c) (calls_for n i th ph hh c) = calls_for n i th ph hh c"
  by (simp add: calls_for_def)

lemma sent_to_absent:
  "c \<notin> set cs \<Longrightarrow> filter (sent_to c) (concat (map (calls_for n i th ph hh) cs)) = []"
  by (induction cs) (auto simp: sent_to_calls_for_other)

lemma sent_to_fan_out:
  "distinct cs \<Longrightarrow> c \<in> set cs \<Longrightarrow>
   filter (sent_to c) (concat (map (calls_for n i th ph hh) cs)) = calls_for n i th ph hh c"
proof (induction cs)
  case Nil
  then show ?case by simp
next
  case (Cons x xs)
  show ?case
  proof (cases "x = c")
    case True
    with Cons.prems have "c \<notin> set xs" by simp
    with True show ?thesis by (simp add: sent_to_calls_for_same sent_to_absent)
  next
    case False
    with Cons show ?thesis by (simp add: sent_to_calls_for_other)
  qed
qed

lemma set_environment_data_frame:
  "connections (snd (set_environment_data rt order t p h n i s)) = connections s \<and>
   handles (snd (set_environment_data rt order t p h n i s)) = handles s"
  by (simp add: set_environment_data_def handles_def fan_out_eq Let_def split: sum.splits)

lemma uint_byte_of_int: "uint (word_of_int y :: byte) = y mod 256"
  by (simp add: uint_word_of_int)

lemma mod_256_step: "0 \<le> c \<Longrightarrow> (y::int) mod (256 * c) = y mod 256 + 256 * ((y div 256) mod c)"
  by (simp add: zmod_zmult2_eq)

lemma le_unsigned_le_bytes4: "le_unsigned (le_bytes4 x) = x mod 4294967296"
proof -
  have d2: "x div 65536 = x div 256 div 256"
    by (simp add: zdiv_zmult2_eq)
  have d3: "x div 16777216 = x div 256 div 256 div 256"
    by (simp add: zdiv_zmult2_eq)
  have "x mod 4294967296 = x mod (256 * (256 * (256 * 256)))" by simp
  also have "\<dots> = x mod 256 + 256 * ((x div 256) mod (256 * (256 * 256)))"
    by (rule mod_256_step) simp
  also have "(x div 256) mod (256 * (256 * 256)) =
      (x div 256) mod 256 + 256 * ((x div 256 div 256) mod (256 * 256))"
    by (rule mod_256_step) simp
  also have "(x div 256 div 256) mod (256 * 256) =
      (x div 256 div 256) mod 256 + 256 * ((x div 256 div 256 div 256) mod 256)"
    by (rule mod_256_step) simp
  finally show ?thesis
    by (simp add: le_bytes4_def uint_byte_of_int d2 d3)
qed

lemma le_signed32_le_bytes4:
  assumes "in_i32 x"
  shows "le_signed32 (le_bytes4 x) = x"
proof (cases "0 \<le> x")
  case True
  with assms have "x mod 4294967296 = x" by (simp add: in_i32_def)
  with assms show ?thesis by (simp add: le_signed32_def le_unsigned_le_bytes4 in_i32_def)
next
  case False
  with assms have "0 \<le> x + 4294967296" "x + 4294967296 < 4294967296"
    by (simp_all add: in_i32_def)
  then have "(x + 4294967296) mod 4294967296 = x + 4294967296" by (rule mod_pos_pos_trivial)
  then have m: "x mod 4294967296 = x + 4294967296" by simp
  from False assms show ?thesis
    by (simp add: le_signed32_def le_unsigned_le_bytes4 m in_i32_def)
qed

lemma length_le_bytes4: "length (le_bytes4 x) = 4"
  by (simp add: le_bytes4_def)

lemma replay_append:
  "replay (xs @ ys) s =
     (case replay xs s of (rs, s') \<Rightarrow> (case replay ys s' of (rs', s'') \<Rightarrow> (rs @ rs', s'')))"
  by (induction xs arbitrary: s) (simp_all split: prod.splits)

lemma replay_snoc:
  "replay (xs @ [x]) s =
     (case replay xs s of (rs, s') \<Rightarrow> (case deliver x s' of (r, s'') \<Rightarrow> (rs @ [r], s'')))"
  by (simp add: replay_append split: prod.splits)

lemma alternating_snoc:
  "alternating (xs @ [x]) \<longleftrightarrow>
     alternating xs \<and>
     list_all (\<lambda>e. disconnects (handle_of e) (xs @ [x]) \<le> connects (handle_of e) (xs @ [x]) \<and>
                    connects (handle_of e) (xs @ [x]) \<le> disconnects (handle_of e) (xs @ [x]) + 1)
       (xs @ [x])"
  by (simp add: alternating_def)

lemma counts_snoc_connect [simp]:
  "connects h (xs @ [Connect h' a b]) = connects h xs + (if h' = h then 1 else 0)"
  "disconnects h (xs @ [Connect h' a b]) = disconnects h xs"
  by (simp_all add: connects_def disconnects_def)

lemma counts_snoc_disconnect [simp]:
  "connects h (xs @ [Disconnect h' a b]) = connects h xs"
  "disconnects h (xs @ [Disconnect h' a b]) = disconnects h xs + (if h' = h then 1 else 0)"
  by (simp_all add: connects_def disconnects_def)

lemma deliver_connect:
  "deliver (Connect h a b) s = (Inr (), s\<lparr>connections := insert h (connections s)\<rparr>)"
  by (simp add: irq_def)

lemma deliver_disconnect:
  "deliver (Disconnect h a b) s =
     (if h \<in> connections s
      then (Inr (), advertise 500000 (s\<lparr>connections := connections s - {h}\<rparr>))
      else (Inl KeyError, s))"
  by (simp add: irq_def IRQ_CENTRAL_CONNECT_def IRQ_CENTRAL_DISCONNECT_def)

lemma connections_advertise [simp]: "connections (advertise i s) = connections s"
  by (simp add: advertise_def gap_advertise_def emit_def)

lemma counts_absent:
  "h \<notin> handle_of ` set xs \<Longrightarrow> connects h xs = 0 \<and> disconnects h xs = 0"
  by (auto simp: connects_def disconnects_def filter_empty_conv)

lemma alternating_bounds:
  assumes "alternating xs"
  shows "disconnects h xs \<le> connects h xs \<and> connects h xs \<le> disconnects h xs + 1"
proof (cases "h \<in> handle_of ` set xs")
  case True
  then obtain e where e: "e \<in> set xs" "handle_of e = h" by auto
  have "xs \<in> set (prefixes xs)" by (simp add: in_set_prefixes)
  with assms e show ?thesis
    by (auto simp: alternating_def list_all_iff)
next
  case False
  then show ?thesis by (simp add: counts_absent)
qed

lemma replay_alternating:
  assumes "connections s = {}"
  shows "alternating evs \<Longrightarrow>
     fst (replay evs s) = replicate (length evs) (Inr ()) \<and>
     connections (snd (replay evs s)) = {h. disconnects h evs < connects h evs}"
proof (induction evs rule: rev_induct)
  case Nil
  with assms show ?case by (simp add: connects_def disconnects_def)
next
  case (snoc x xs)
  from snoc.prems have alt: "alternating xs"
    and last: "disconnects (handle_of x) (xs @ [x]) \<le> connects (handle_of x) (xs @ [x])"
              "connects (handle_of x) (xs @ [x]) \<le> disconnects (handle_of x) (xs @ [x]) + 1"
    by (simp_all add: alternating_snoc)
  from snoc.IH [OF alt]
  have rs: "fst (replay xs s) = replicate (length xs) (Inr ())"
    and cs: "connections (snd (replay xs s)) = {h. disconnects h xs < connects h xs}"
    by simp_all
  obtain rs' s' where r: "replay xs s = (rs', s')" by (cases "replay xs s")
  with rs cs have rs': "rs' = replicate (length xs) (Inr ())"
    and cs': "connections s' = {h. disconnects h xs < connects h xs}" by simp_all
  show ?case
  proof (cases x)
    case (Connect h a b)
    with last have "connects h xs \<le> disconnects h xs" by simp
    moreover from alternating_bounds [OF alt, of h]
    have "disconnects h xs \<le> connects h xs" by simp
    ultimately have "{k. disconnects k (xs @ [x]) < connects k (xs @ [x])} = insert h (connections s')"
      using Connect cs' by auto
    then show ?thesis
      using Connect r rs' by (simp add: replay_snoc deliver_connect replicate_append_same del: deliver.simps)
  next
    case (Disconnect h a b)
    with last have lt: "disconnects h xs < connects h xs" by simp
    from alternating_bounds [OF alt, of h]
    have le: "connects h xs \<le> disconnects h xs + 1" by simp
    from lt have mem: "h \<in> connections s'" using cs' by simp
    have "{k. disconnects k (xs @ [x]) < connects k (xs @ [x])} = connections s' - {h}"
      using Disconnect cs' le lt by auto
    then show ?thesis
      using Disconnect r rs' mem
      by (simp add: replay_snoc deliver_disconnect replicate_append_same del: deliver.simps)
  qed
qed

lemma byte_of_shifted:
  "n + 8 \<le> 32 \<Longrightarrow> (ucast (drop_bit n (word_of_int x :: 32 word)) :: byte) = word_of_int (x div 2 ^ n)"
  by (rule bit_word_eqI) (auto simp: bit_simps drop_bit_eq_div [symmetric])

lemma le_bytes4_encode: "le_bytes4 x = le_encode32 (word_of_int x)"
  using byte_of_shifted [of 0 x] byte_of_shifted [of 8 x] byte_of_shifted [of 16 x]
    byte_of_shifted [of 24 x]
  by (simp add: le_bytes4_def le_encode32_def)

lemma sint_in_i32: "in_i32 x \<Longrightarrow> sint (word_of_int x :: 32 word) = x"
  by (simp add: in_i32_def sint_sbintrunc' signed_take_bit_int_eq_self)

text \<open>
  Whatever the events, a handle is connected after the replay exactly when the last event
  that names it is a connect (and, when none names it, when it was connected before).
\<close>

lemma replay_connections:
  "connections (snd (replay evs s)) =
     {h. case filter (\<lambda>e. handle_of e = h) evs of [] \<Rightarrow> h \<in> connections s | e # es \<Rightarrow> is_connect (last (e # es))}"
proof (induction evs rule: rev_induct)
  case Nil
  show ?case by simp
next
  case (snoc x xs)
  obtain rs' s' where r: "replay xs s = (rs', s')" by (cases "replay xs s")
  show ?case
  proof (cases x)
    case (Connect h a b)
    with snoc r show ?thesis
      by (auto simp add: replay_snoc deliver_connect simp del: deliver.simps split: list.splits)
  next
    case (Disconnect h a b)
    with snoc r show ?thesis
      by (auto simp add: replay_snoc deliver_disconnect simp del: deliver.simps split: list.splits)
  qed
qed

section \<open>The claims\<close>

subsection \<open>C1: replaying connect and disconnect events\<close>

text \<open>
  C1, as stated: for every sequence of connect and disconnect events replayed from an
  empty connection set, no event raises, and the set ends as the handles with strictly
  more connects than disconnects.

  This fails in two ways. A disconnect for a handle that is not in the set raises
  \<open>KeyError\<close> (\<open>set.remove\<close>). And a connect for a handle already in the set
  succeeds without adding anything, so after connect, connect, disconnect of one handle
  the set is empty although the connects outnumber the disconnects.
\<close>

theorem replay_counts_counterexample:
  "fst (replay [Disconnect (PInt 1) (PInt 0) (PBytes [])] fresh) = [Inl KeyError] \<and>
   fst (replay [Connect (PInt 1) (PInt 0) (PBytes []), Connect (PInt 1) (PInt 0) (PBytes []),
                Disconnect (PInt 1) (PInt 0) (PBytes [])] fresh) = [Inr (), Inr (), Inr ()] \<and>
   disconnects (PInt 1) [Connect (PInt 1) (PInt 0) (PBytes []), Connect (PInt 1) (PInt 0) (PBytes []),
                Disconnect (PInt 1) (PInt 0) (PBytes [])]
     < connects (PInt 1) [Connect (PInt 1) (PInt 0) (PBytes []), Connect (PInt 1) (PInt 0) (PBytes []),
                Disconnect (PInt 1) (PInt 0) (PBytes [])] \<and>
   PInt 1 \<notin> connections (snd (replay [Connect (PInt 1) (PInt 0) (PBytes []),
                Connect (PInt 1) (PInt 0) (PBytes []), Disconnect (PInt 1) (PInt 0) (PBytes [])] fresh))"
  by (simp add: irq_def IRQ_CENTRAL_CONNECT_def IRQ_CENTRAL_DISCONNECT_def fresh_def
      connects_def disconnects_def)


text \<open>
  C1, amended: for every sequence in which the connects and disconnects of each handle
  alternate, starting with a connect, replayed from an empty connection set, no event
  raises, and the set ends as the handles with strictly more connects than disconnects.
\<close>

theorem replay_alternating_counts:
  assumes "connections s = {}" and "alternating evs"
  shows "case replay evs s of (rs, s') \<Rightarrow>
     length rs = length evs \<and> list_all (\<lambda>r. r = Inr ()) rs \<and>
     connections s' = {h. disconnects h evs < connects h evs}"
  using replay_alternating [OF assms]
  by (cases "replay evs s") (auto simp: list_all_iff)

theorem replay_alternating_counts_witness:
  "connections fresh = {} \<and> alternating peer_events \<and>
   fst (replay peer_events fresh) = [Inr (), Inr (), Inr (), Inr (), Inr ()] \<and>
   connections (snd (replay peer_events fresh)) = {PInt 1} \<and>
   {h. disconnects h peer_events < connects h peer_events} = {PInt 1}"
proof -
  have e: "connections fresh = {}" by (simp add: fresh_def)
  have a: "alternating peer_events"
    by (simp add: peer_events_def alternating_def connects_def disconnects_def)
  have r: "fst (replay peer_events fresh) = [Inr (), Inr (), Inr (), Inr (), Inr ()]"
    by (simp add: peer_events_def irq_def IRQ_CENTRAL_CONNECT_def IRQ_CENTRAL_DISCONNECT_def
        fresh_def)
  have c: "connections (snd (replay peer_events fresh)) = {PInt 1}"
    by (auto simp: peer_events_def irq_def IRQ_CENTRAL_CONNECT_def IRQ_CENTRAL_DISCONNECT_def
        fresh_def)
  from replay_alternating_counts [OF e a] c
  have "{h. disconnects h peer_events < connects h peer_events} = {PInt 1}"
    by (simp add: case_prod_beta)
  with e a r c show ?thesis by simp
qed

subsection \<open>C2: disconnect of a handle that is not connected\<close>

text \<open>
  C2, as stated: a disconnect event for a handle that is not in the connection set leaves
  the set as it is, raises nothing and re-arms advertising.

  The callback calls \<open>set.remove\<close>, which raises \<open>KeyError\<close>; the call of
  \<open>_advertise\<close> that follows it is not reached.
\<close>

theorem disconnect_absent_counterexample:
  "PInt 7 \<notin> connections fresh \<and>
   fst (irq IRQ_CENTRAL_DISCONNECT [PInt 7, PInt 0, PBytes []] fresh) = Inl KeyError \<and>
   trace (snd (irq IRQ_CENTRAL_DISCONNECT [PInt 7, PInt 0, PBytes []] fresh)) = trace fresh"
  by (simp add: irq_def IRQ_CENTRAL_CONNECT_def IRQ_CENTRAL_DISCONNECT_def fresh_def)


text \<open>
  C2, amended: a disconnect event for a handle that is not in the connection set raises
  \<open>KeyError\<close> and changes nothing: the set is as before and advertising is not
  re-armed. For a handle that is in the set, the handle is removed and advertising is
  re-armed with the stored payload at 500000 microseconds.
\<close>

theorem disconnect_absent_raises:
  "(h \<notin> connections s \<longrightarrow> irq IRQ_CENTRAL_DISCONNECT [h, a, b] s = (Inl KeyError, s)) \<and>
   (h \<in> connections s \<longrightarrow>
      irq IRQ_CENTRAL_DISCONNECT [h, a, b] s =
        (Inr (), s\<lparr>connections := connections s - {h},
                   trace := trace s @ [Gap_advertise 500000 (payload s)]\<rparr>))"
  by (simp add: irq_def IRQ_CENTRAL_CONNECT_def IRQ_CENTRAL_DISCONNECT_def advertise_def
      gap_advertise_def emit_def)

theorem disconnect_absent_raises_witness:
  "PInt 7 \<notin> connections two_peers \<and>
   irq IRQ_CENTRAL_DISCONNECT [PInt 7, PInt 0, PBytes []] two_peers = (Inl KeyError, two_peers) \<and>
   PInt 2 \<in> connections two_peers \<and>
   irq IRQ_CENTRAL_DISCONNECT [PInt 2, PInt 0, PBytes []] two_peers =
     (Inr (), two_peers\<lparr>connections := {PInt 1}, trace := [Gap_advertise 500000 [2, 1, 6]]\<rparr>)"
proof -
  have a: "PInt 7 \<notin> connections two_peers" and b: "PInt 2 \<in> connections two_peers"
    by (simp_all add: two_peers_def fresh_def)
  have c: "connections two_peers - {PInt 2} = {PInt 1}"
    by (auto simp: two_peers_def fresh_def)
  have d: "trace two_peers = []" "payload two_peers = [2, 1, 6]"
    by (simp_all add: two_peers_def fresh_def)
  from disconnect_absent_raises [where h = "PInt 7" and s = two_peers and a = "PInt 0" and b = "PBytes []"]
       disconnect_absent_raises [where h = "PInt 2" and s = two_peers and a = "PInt 0" and b = "PBytes []"] a b
  show ?thesis by (simp add: c d)
qed

subsection \<open>C3: the command channel\<close>

text \<open>
  C3: \<open>read_act\<close> reads the command characteristic; when its bytes are those of
  \<open>blink\<close> it sets pin 23 up as an output and pulses it three times (on, 500 ms, off,
  500 ms), and for any other content it does nothing; in both cases it then writes four
  zero bytes to the characteristic, after the pulses, and returns normally. A read of the
  characteristic afterwards gives the four zero bytes.
\<close>

theorem read_act_blink:
  "case read_act rt s of (r, s') \<Rightarrow>
     r = Inr () \<and>
     emitted s s' =
       Gatts_read (string_handle s) #
       (if attrs s (string_handle s) = blink_token then Pin_out 23 # pulse @ pulse @ pulse else []) @
       [Gatts_write (string_handle s) [0, 0, 0, 0]] \<and>
     fst (gatts_read (string_handle s') s') = [0, 0, 0, 0]"
  by (simp add: read_act_eq gatts_read_def)

theorem read_act_blink_witness:
  "fst (gatts_read (string_handle (pending blink_token)) (pending blink_token)) = [0x62, 0x6C, 0x69, 0x6E, 0x6B] \<and>
   emitted (pending blink_token) (snd (read_act MicroPython (pending blink_token))) =
     [Gatts_read 18, Pin_out 23,
      Pin_on 23, Sleep_ms 500, Pin_off 23, Sleep_ms 500,
      Pin_on 23, Sleep_ms 500, Pin_off 23, Sleep_ms 500,
      Pin_on 23, Sleep_ms 500, Pin_off 23, Sleep_ms 500,
      Gatts_write 18 [0, 0, 0, 0]] \<and>
   attrs (snd (read_act MicroPython (pending blink_token))) 18 = [0, 0, 0, 0] \<and>
   emitted (pending hello_token) (snd (read_act MicroPython (pending hello_token))) =
     [Gatts_read 18, Gatts_write 18 [0, 0, 0, 0]] \<and>
   attrs (snd (read_act MicroPython (pending hello_token))) 18 = [0, 0, 0, 0]"
proof -
  have f: "string_handle (pending bs) = 18" "attrs (pending bs) 18 = bs" for bs
    by (simp_all add: pending_def fresh_def)
  have ne: "hello_token \<noteq> blink_token"
    by (simp add: hello_token_def blink_token_def)
  have g: "string_handle (snd (read_act MicroPython (pending bs))) = 18" for bs
    by (simp add: read_act_eq f)
  from read_act_blink [where rt = MicroPython and s = "pending blink_token"]
       read_act_blink [where rt = MicroPython and s = "pending hello_token"] ne
  show ?thesis
    by (simp add: case_prod_beta f g pulse_def gatts_read_def) (simp add: blink_token_def)
qed


subsection \<open>C4: notifications only\<close>

text \<open>
  C4: with \<open>notify\<close> set and \<open>indicate\<close> not set, and the loop going through the
  connection set in any order, \<open>set_environment_data\<close> makes three notify calls for
  each connection, \<open>3 * N\<close> in all for \<open>N\<close> connections (to each connection one for
  the temperature, one for the pressure, one for the humidity), and no indicate call.
  The values are such that \<open>struct.pack\<close> takes them: any integers on MicroPython,
  integers of the signed 32-bit range on CPython.
\<close>

theorem publish_notify_count:
  assumes "enumerates order s"
    and "packable rt temp" and "packable rt pressure" and "packable rt humidity"
  shows "case set_environment_data rt order temp pressure humidity True False s of (r, s') \<Rightarrow>
     r = Inr () \<and>
     length (filter is_notify (emitted s s')) = 3 * card (connections s) \<and>
     filter is_indicate (emitted s s') = [] \<and>
     (\<forall>c \<in> connections s. filter (sent_to c) (emitted s s') =
        [Gatts_notify c (temp_handle s), Gatts_notify c (pressure_handle s),
         Gatts_notify c (humidity_handle s)])"
proof -
  from assms(1) have d: "distinct order" and e: "set order = connections s"
    by (simp_all add: enumerates_def)
  from d e have card: "card (connections s) = length order"
    using distinct_card by fastforce
  have sent: "\<forall>c \<in> connections s.
      filter (sent_to c) (concat (map (calls_for True False (temp_handle s) (pressure_handle s) (humidity_handle s)) order)) =
      [Gatts_notify c (temp_handle s), Gatts_notify c (pressure_handle s), Gatts_notify c (humidity_handle s)]"
    using d e by (simp add: sent_to_fan_out) (simp add: calls_for_def)
  show ?thesis
    using sent
    by (simp add: set_environment_data_ok [OF assms(2-4)] filter_concat_calls_notify
        filter_concat_calls_indicate card)
qed

theorem publish_notify_count_witness:
  "enumerates [PInt 2, PInt 1] two_peers \<and>
   packable CPython 21 \<and> packable CPython 101325 \<and> packable CPython 45 \<and>
   fst (set_environment_data CPython [PInt 2, PInt 1] 21 101325 45 True False two_peers) = Inr () \<and>
   length (filter is_notify (emitted two_peers
     (snd (set_environment_data CPython [PInt 2, PInt 1] 21 101325 45 True False two_peers)))) = 6 \<and>
   filter is_indicate (emitted two_peers
     (snd (set_environment_data CPython [PInt 2, PInt 1] 21 101325 45 True False two_peers))) = [] \<and>
   filter (sent_to (PInt 1)) (emitted two_peers
     (snd (set_environment_data CPython [PInt 2, PInt 1] 21 101325 45 True False two_peers))) =
     [Gatts_notify (PInt 1) 9, Gatts_notify (PInt 1) 12, Gatts_notify (PInt 1) 15]"
proof -
  have e: "enumerates [PInt 2, PInt 1] two_peers"
    by (auto simp: enumerates_def two_peers_def fresh_def)
  have p: "packable CPython 21" "packable CPython 101325" "packable CPython 45"
    by (simp_all add: packable_def in_i32_def)
  have f: "connections two_peers = {PInt 1, PInt 2}" "temp_handle two_peers = 9"
    "pressure_handle two_peers = 12" "humidity_handle two_peers = 15"
    by (simp_all add: two_peers_def fresh_def)
  from publish_notify_count [OF e p] e p show ?thesis
    by (simp add: case_prod_beta f)
qed


subsection \<open>C5: writing without notifying\<close>

text \<open>
  C5: with neither \<open>notify\<close> nor \<open>indicate\<close> set, \<open>set_environment_data\<close> makes
  exactly three calls, the writes of temperature, pressure and humidity to their
  characteristics, whatever the connection set: no notify and no indicate call. Whatever
  the two flags are, the same three writes are the first three calls and the only writes,
  and the three attributes hold the packed values afterwards. The values are such that
  \<open>struct.pack\<close> takes them: any integers on MicroPython, integers of the signed 32-bit
  range on CPython.
\<close>

theorem publish_silent:
  assumes "packable rt temp" and "packable rt pressure" and "packable rt humidity"
  shows "(case set_environment_data rt order temp pressure humidity False False s of (r, s') \<Rightarrow>
       r = Inr () \<and>
       emitted s s' =
         [Gatts_write (temp_handle s) (le_bytes4 temp),
          Gatts_write (pressure_handle s) (le_bytes4 pressure),
          Gatts_write (humidity_handle s) (le_bytes4 humidity)] \<and>
       filter is_notify (emitted s s') = [] \<and> filter is_indicate (emitted s s') = []) \<and>
     (case set_environment_data rt order temp pressure humidity notify indicate s of (r, s') \<Rightarrow>
       r = Inr () \<and>
       filter is_write (emitted s s') =
         [Gatts_write (temp_handle s) (le_bytes4 temp),
          Gatts_write (pressure_handle s) (le_bytes4 pressure),
          Gatts_write (humidity_handle s) (le_bytes4 humidity)] \<and>
       take 3 (emitted s s') = filter is_write (emitted s s') \<and>
       attrs s' = (attrs s)(temp_handle s := le_bytes4 temp,
                            pressure_handle s := le_bytes4 pressure,
                            humidity_handle s := le_bytes4 humidity))"
  by (simp add: set_environment_data_ok [OF assms] filter_write_calls)

theorem publish_silent_witness:
  "packable MicroPython (- 40) \<and> packable MicroPython 101325 \<and> packable MicroPython 4294967341 \<and>
   fst (set_environment_data MicroPython [PInt 1, PInt 2] (- 40) 101325 4294967341 False False two_peers)
     = Inr () \<and>
   emitted two_peers
     (snd (set_environment_data MicroPython [PInt 1, PInt 2] (- 40) 101325 4294967341 False False two_peers))
     = [Gatts_write 9 [0xD8, 0xFF, 0xFF, 0xFF], Gatts_write 12 [0xCD, 0x8B, 0x01, 0x00],
        Gatts_write 15 [0x2D, 0x00, 0x00, 0x00]] \<and>
   filter is_write (emitted two_peers
     (snd (set_environment_data MicroPython [PInt 1, PInt 2] (- 40) 101325 4294967341 True True two_peers)))
     = [Gatts_write 9 [0xD8, 0xFF, 0xFF, 0xFF], Gatts_write 12 [0xCD, 0x8B, 0x01, 0x00],
        Gatts_write 15 [0x2D, 0x00, 0x00, 0x00]]"
proof -
  have p: "packable MicroPython (- 40)" "packable MicroPython 101325"
    "packable MicroPython 4294967341"
    by (simp_all add: packable_def)
  have f: "temp_handle two_peers = 9" "pressure_handle two_peers = 12"
    "humidity_handle two_peers = 15"
    by (simp_all add: two_peers_def fresh_def)
  have b: "le_bytes4 (- 40) = [0xD8, 0xFF, 0xFF, 0xFF]"
    "le_bytes4 101325 = [0xCD, 0x8B, 0x01, 0x00]"
    "le_bytes4 4294967341 = [0x2D, 0x00, 0x00, 0x00]"
    by (simp_all add: le_bytes4_def)
  from publish_silent [OF p, where order = "[PInt 1, PInt 2]" and s = two_peers
      and notify = True and indicate = True] p
  show ?thesis
    by (simp add: case_prod_beta f b)
qed


subsection \<open>C6: reading a published value back\<close>

text \<open>
  C6: for values of the signed 32-bit range, negative ones included, and the handles of
  the characteristics being different attributes, a read of each numeric characteristic
  after \<open>set_environment_data\<close> gives the four bytes of the value as a 32-bit two's
  complement word, least significant byte first; decoding them gives the value back.
\<close>

theorem publish_read_back:
  assumes "in_i32 temp" and "in_i32 pressure" and "in_i32 humidity" and "distinct_handles s"
  shows "case set_environment_data rt order temp pressure humidity notify indicate s of (r, s') \<Rightarrow>
     r = Inr () \<and>
     fst (gatts_read (temp_handle s') s') = le_encode32 (word_of_int temp) \<and>
     sint (word_of_int temp :: 32 word) = temp \<and>
     le_signed32 (fst (gatts_read (temp_handle s') s')) = temp \<and>
     fst (gatts_read (pressure_handle s') s') = le_encode32 (word_of_int pressure) \<and>
     sint (word_of_int pressure :: 32 word) = pressure \<and>
     le_signed32 (fst (gatts_read (pressure_handle s') s')) = pressure \<and>
     fst (gatts_read (humidity_handle s') s') = le_encode32 (word_of_int humidity) \<and>
     sint (word_of_int humidity :: 32 word) = humidity \<and>
     le_signed32 (fst (gatts_read (humidity_handle s') s')) = humidity"
proof -
  from assms(1-3) have p: "packable rt temp" "packable rt pressure" "packable rt humidity"
    by (simp_all add: packable_def)
  from assms(4) have d: "temp_handle s \<noteq> pressure_handle s" "temp_handle s \<noteq> humidity_handle s"
    "pressure_handle s \<noteq> humidity_handle s"
    by (simp_all add: distinct_handles_def)
  have dec: "le_signed32 (le_encode32 (word_of_int temp)) = temp"
    "le_signed32 (le_encode32 (word_of_int pressure)) = pressure"
    "le_signed32 (le_encode32 (word_of_int humidity)) = humidity"
    using assms(1-3) by (simp_all add: le_bytes4_encode [symmetric] le_signed32_le_bytes4)
  show ?thesis
    using d assms(1-3)
    by (simp add: set_environment_data_ok [OF p] gatts_read_def le_bytes4_encode dec sint_in_i32)
qed

theorem publish_read_back_witness:
  "in_i32 (- 40) \<and> in_i32 101325 \<and> in_i32 45 \<and> distinct_handles fresh \<and>
   le_encode32 (word_of_int (- 40)) = [0xD8, 0xFF, 0xFF, 0xFF] \<and>
   fst (gatts_read 9 (snd (set_environment_data CPython [] (- 40) 101325 45 False False fresh)))
     = le_encode32 (word_of_int (- 40)) \<and>
   le_signed32 (fst (gatts_read 9
     (snd (set_environment_data CPython [] (- 40) 101325 45 False False fresh)))) = - 40 \<and>
   le_signed32 (fst (gatts_read 12
     (snd (set_environment_data CPython [] (- 40) 101325 45 False False fresh)))) = 101325 \<and>
   le_signed32 (fst (gatts_read 15
     (snd (set_environment_data CPython [] (- 40) 101325 45 False False fresh)))) = 45"
proof -
  have i: "in_i32 (- 40)" "in_i32 101325" "in_i32 45"
    by (simp_all add: in_i32_def)
  have d: "distinct_handles fresh"
    by (simp add: distinct_handles_def fresh_def)
  have p: "packable CPython (- 40)" "packable CPython 101325" "packable CPython 45"
    using i by (simp_all add: packable_def)
  have h: "temp_handle (snd (set_environment_data CPython [] (- 40) 101325 45 False False fresh)) = 9"
    "pressure_handle (snd (set_environment_data CPython [] (- 40) 101325 45 False False fresh)) = 12"
    "humidity_handle (snd (set_environment_data CPython [] (- 40) 101325 45 False False fresh)) = 15"
    by (simp_all add: set_environment_data_ok [OF p] fresh_def)
  have "le_bytes4 (- 40) = [0xD8, 0xFF, 0xFF, 0xFF]"
    by (simp add: le_bytes4_def)
  then have b: "le_encode32 (word_of_int (- 40)) = [0xD8, 0xFF, 0xFF, 0xFF]"
    by (simp only: le_bytes4_encode [symmetric])
  from publish_read_back [OF i d, where rt = CPython and order = "[]" and notify = False
      and indicate = False]
  have t: "fst (gatts_read 9 (snd (set_environment_data CPython [] (- 40) 101325 45 False False fresh)))
      = le_encode32 (word_of_int (- 40)) \<and>
    le_signed32 (fst (gatts_read 9
      (snd (set_environment_data CPython [] (- 40) 101325 45 False False fresh)))) = - 40 \<and>
    le_signed32 (fst (gatts_read 12
      (snd (set_environment_data CPython [] (- 40) 101325 45 False False fresh)))) = 101325 \<and>
    le_signed32 (fst (gatts_read 15
      (snd (set_environment_data CPython [] (- 40) 101325 45 False False fresh)))) = 45"
    unfolding case_prod_beta h by blast
  from i d b t show ?thesis by blast
qed

subsection \<open>C7: notifications and indications together\<close>

text \<open>
  C7: with \<open>notify\<close> and \<open>indicate\<close> both set, the calls that
  \<open>set_environment_data\<close> sends to any one connection are, in this order: notify
  temperature, notify pressure, notify humidity, indicate temperature, indicate pressure,
  indicate humidity.
\<close>

theorem publish_both_order:
  assumes "enumerates order s"
    and "packable rt temp" and "packable rt pressure" and "packable rt humidity"
  shows "case set_environment_data rt order temp pressure humidity True True s of (r, s') \<Rightarrow>
     r = Inr () \<and>
     (\<forall>c \<in> connections s. filter (sent_to c) (emitted s s') =
        [Gatts_notify c (temp_handle s), Gatts_notify c (pressure_handle s),
         Gatts_notify c (humidity_handle s),
         Gatts_indicate c (temp_handle s), Gatts_indicate c (pressure_handle s),
         Gatts_indicate c (humidity_handle s)])"
proof -
  from assms(1) have d: "distinct order" and e: "set order = connections s"
    by (simp_all add: enumerates_def)
  have sent: "\<forall>c \<in> connections s.
      filter (sent_to c) (concat (map (calls_for True True (temp_handle s) (pressure_handle s) (humidity_handle s)) order)) =
      [Gatts_notify c (temp_handle s), Gatts_notify c (pressure_handle s), Gatts_notify c (humidity_handle s),
       Gatts_indicate c (temp_handle s), Gatts_indicate c (pressure_handle s), Gatts_indicate c (humidity_handle s)]"
    using d e by (simp add: sent_to_fan_out) (simp add: calls_for_def)
  show ?thesis
    using sent by (simp add: set_environment_data_ok [OF assms(2-4)])
qed

theorem publish_both_order_witness:
  "enumerates [PInt 2, PInt 1] two_peers \<and>
   packable CPython 21 \<and> packable CPython 101325 \<and> packable CPython 45 \<and>
   filter (sent_to (PInt 1)) (emitted two_peers
     (snd (set_environment_data CPython [PInt 2, PInt 1] 21 101325 45 True True two_peers))) =
     [Gatts_notify (PInt 1) 9, Gatts_notify (PInt 1) 12, Gatts_notify (PInt 1) 15,
      Gatts_indicate (PInt 1) 9, Gatts_indicate (PInt 1) 12, Gatts_indicate (PInt 1) 15] \<and>
   filter (sent_to (PInt 2)) (emitted two_peers
     (snd (set_environment_data CPython [PInt 2, PInt 1] 21 101325 45 True True two_peers))) =
     [Gatts_notify (PInt 2) 9, Gatts_notify (PInt 2) 12, Gatts_notify (PInt 2) 15,
      Gatts_indicate (PInt 2) 9, Gatts_indicate (PInt 2) 12, Gatts_indicate (PInt 2) 15]"
proof -
  have e: "enumerates [PInt 2, PInt 1] two_peers"
    by (auto simp: enumerates_def two_peers_def fresh_def)
  have p: "packable CPython 21" "packable CPython 101325" "packable CPython 45"
    by (simp_all add: packable_def in_i32_def)
  have f: "connections two_peers = {PInt 1, PInt 2}" "temp_handle two_peers = 9"
    "pressure_handle two_peers = 12" "humidity_handle two_peers = 15"
    by (simp_all add: two_peers_def fresh_def)
  from publish_both_order [OF e p] e p show ?thesis
    by (simp add: case_prod_beta f)
qed


subsection \<open>C8: connect of a handle that is already connected\<close>

text \<open>
  C8: a connect event for a handle that is already in the connection set raises nothing
  and leaves the state as it is; the set has as many members as before.
\<close>

theorem connect_present_noop:
  assumes "h \<in> connections s"
  shows "irq IRQ_CENTRAL_CONNECT [h, a, b] s = (Inr (), s) \<and>
         card (connections (snd (irq IRQ_CENTRAL_CONNECT [h, a, b] s))) = card (connections s)"
  using assms by (simp add: irq_def insert_absorb)

theorem connect_present_noop_witness:
  "PInt 2 \<in> connections two_peers \<and>
   irq IRQ_CENTRAL_CONNECT [PInt 2, PInt 0, PBytes []] two_peers = (Inr (), two_peers) \<and>
   card (connections (snd (irq IRQ_CENTRAL_CONNECT [PInt 2, PInt 0, PBytes []] two_peers))) = 2"
proof -
  have m: "PInt 2 \<in> connections two_peers"
    by (simp add: two_peers_def fresh_def)
  have c: "card (connections two_peers) = 2"
    by (simp add: two_peers_def fresh_def)
  from connect_present_noop [OF m, of "PInt 0" "PBytes []"] m c show ?thesis
    by simp
qed


subsection \<open>C9: other events\<close>

text \<open>
  C9: an event of a kind other than connect, disconnect and indicate-done is ignored,
  whatever its payload: no error, no change of state. An indicate-done event with a
  payload of connection handle, attribute handle and status raises nothing and changes
  nothing, whatever the status.
\<close>

theorem irq_ignores:
  "(event \<noteq> IRQ_CENTRAL_CONNECT \<and> event \<noteq> IRQ_CENTRAL_DISCONNECT \<and>
    event \<noteq> IRQ_GATTS_INDICATE_DONE \<longrightarrow> irq event data s = (Inr (), s)) \<and>
   irq IRQ_GATTS_INDICATE_DONE [conn_handle, value_handle, status] s = (Inr (), s)"
  by (simp add: irq_def IRQ_CENTRAL_CONNECT_def IRQ_CENTRAL_DISCONNECT_def
      IRQ_GATTS_INDICATE_DONE_def)

theorem irq_ignores_witness:
  "(3::int) \<noteq> IRQ_CENTRAL_CONNECT \<and> (3::int) \<noteq> IRQ_CENTRAL_DISCONNECT \<and>
   (3::int) \<noteq> IRQ_GATTS_INDICATE_DONE \<and>
   irq 3 [PInt 1, PInt 9, PBytes [1, 2]] two_peers = (Inr (), two_peers) \<and>
   irq IRQ_GATTS_INDICATE_DONE [PInt 1, PInt 9, PInt 255] two_peers = (Inr (), two_peers)"
proof -
  have n: "(3::int) \<noteq> IRQ_CENTRAL_CONNECT \<and> (3::int) \<noteq> IRQ_CENTRAL_DISCONNECT \<and>
      (3::int) \<noteq> IRQ_GATTS_INDICATE_DONE"
    by (simp add: IRQ_CENTRAL_CONNECT_def IRQ_CENTRAL_DISCONNECT_def IRQ_GATTS_INDICATE_DONE_def)
  from irq_ignores [where event = 3 and data = "[PInt 1, PInt 9, PBytes [1, 2]]" and s = two_peers
      and conn_handle = "PInt 1" and value_handle = "PInt 9" and status = "PInt 255"] n
  show ?thesis by simp
qed


subsection \<open>C10: what the operations leave alone\<close>

text \<open>
  C10: \<open>set_environment_data\<close> and \<open>read_act\<close>, whatever their arguments and
  whether they return or raise, leave the connection set and the four attribute handles
  as they were. The event callback never changes the four handles, and changes the
  connection set only on a connect or a disconnect event.
\<close>

theorem publish_and_command_frame:
  "(case set_environment_data rt order temp pressure humidity notify indicate s of (r, s') \<Rightarrow>
      connections s' = connections s \<and> handles s' = handles s) \<and>
   (case read_act rt s of (r, s') \<Rightarrow> connections s' = connections s \<and> handles s' = handles s) \<and>
   (case irq event data s of (r, s') \<Rightarrow>
      handles s' = handles s \<and>
      (event \<noteq> IRQ_CENTRAL_CONNECT \<and> event \<noteq> IRQ_CENTRAL_DISCONNECT \<longrightarrow>
         connections s' = connections s))"
proof -
  have a: "case set_environment_data rt order temp pressure humidity notify indicate s of (r, s') \<Rightarrow>
      connections s' = connections s \<and> handles s' = handles s"
    using set_environment_data_frame [of rt order temp pressure humidity notify indicate s]
    by (simp add: case_prod_beta)
  have b: "case read_act rt s of (r, s') \<Rightarrow> connections s' = connections s \<and> handles s' = handles s"
    by (simp add: read_act_eq handles_def)
  have c: "case irq event data s of (r, s') \<Rightarrow>
      handles s' = handles s \<and>
      (event \<noteq> IRQ_CENTRAL_CONNECT \<and> event \<noteq> IRQ_CENTRAL_DISCONNECT \<longrightarrow>
         connections s' = connections s)"
    by (simp add: irq_def handles_def advertise_def gap_advertise_def split: list.splits)
  from a b c show ?thesis by simp
qed

theorem publish_and_command_frame_witness:
  "connections (snd (set_environment_data CPython [PInt 2, PInt 1] 21 101325 45 True True two_peers))
     = {PInt 1, PInt 2} \<and>
   handles (snd (set_environment_data CPython [PInt 2, PInt 1] 21 101325 45 True True two_peers))
     = (9, 12, 15, 18) \<and>
   connections (snd (set_environment_data CPython [PInt 2, PInt 1] 21 4294967296 45 True True two_peers))
     = {PInt 1, PInt 2} \<and>
   connections (snd (read_act CPython two_peers)) = {PInt 1, PInt 2} \<and>
   handles (snd (read_act CPython two_peers)) = (9, 12, 15, 18) \<and>
   IRQ_GATTS_INDICATE_DONE \<noteq> IRQ_CENTRAL_CONNECT \<and>
   IRQ_GATTS_INDICATE_DONE \<noteq> IRQ_CENTRAL_DISCONNECT \<and>
   connections (snd (irq IRQ_GATTS_INDICATE_DONE [PInt 1, PInt 9, PInt 0] two_peers))
     = {PInt 1, PInt 2}"
proof -
  have n: "IRQ_GATTS_INDICATE_DONE \<noteq> IRQ_CENTRAL_CONNECT \<and>
      IRQ_GATTS_INDICATE_DONE \<noteq> IRQ_CENTRAL_DISCONNECT"
    by (simp add: IRQ_CENTRAL_CONNECT_def IRQ_CENTRAL_DISCONNECT_def IRQ_GATTS_INDICATE_DONE_def)
  have f: "connections two_peers = {PInt 1, PInt 2}" "handles two_peers = (9, 12, 15, 18)"
    by (simp_all add: two_peers_def fresh_def handles_def)
  from publish_and_command_frame [where rt = CPython and order = "[PInt 2, PInt 1]" and temp = 21
      and pressure = 101325 and humidity = 45 and notify = True and indicate = True
      and s = two_peers and event = IRQ_GATTS_INDICATE_DONE and data = "[PInt 1, PInt 9, PInt 0]"]
    publish_and_command_frame [where rt = CPython and order = "[PInt 2, PInt 1]" and temp = 21
      and pressure = 4294967296 and humidity = 45 and notify = True and indicate = True
      and s = two_peers and event = IRQ_GATTS_INDICATE_DONE and data = "[PInt 1, PInt 9, PInt 0]"]
    n
  show ?thesis by (simp add: case_prod_beta f)
qed


end
